theory Spec2Isabelle
  imports Main "HOL-Library.Sublist"
begin

section \<open>Data model of the chat page\<close>

text \<open>
  The page component \<^verbatim>\<open>Home\<close> of \<^verbatim>\<open>frontend/app/page.tsx\<close> keeps four pieces of React
  state: the message log, the input text, the loading (busy) flag and the readiness flag.
  JavaScript strings are modelled as \<^typ>\<open>string\<close>, the bytes of their UTF-8 form, so an
  ASCII character is one \<^typ>\<open>char\<close> (a surrogate without its partner keeps its three
  bytes). Writes to the console are left out: they change no state.
\<close>

datatype role = User | Assistant

text \<open>
  \<^verbatim>\<open>interface Message { role; content: string; isError?: boolean }\<close>: the optional field
  is \<open>None\<close> when the property is absent.
\<close>

record message =
  role :: role
  content :: string
  isError :: "bool option"

text \<open>A JSON value as \<^verbatim>\<open>JSON.parse\<close> returns it; a number keeps its literal.\<close>

datatype json =
    JNull
  | JBool bool
  | JNumber string
  | JString string
  | JArray "json list"
  | JObject "(string \<times> json) list"

section \<open>The platform: strings, the text decoder, the JSON parser\<close>

text \<open>
  The page calls \<^verbatim>\<open>String.prototype.trim\<close>, \<^verbatim>\<open>split\<close>, \<^verbatim>\<open>startsWith\<close> and
  \<^verbatim>\<open>substring\<close>, \<^verbatim>\<open>TextDecoder.decode\<close> and \<^verbatim>\<open>JSON.parse\<close>. They belong to the
  browser, not to the repository; they are written out here after the ECMAScript, Encoding
  and JSON standards so that the page's code can be run on concrete streams.
\<close>

definition byte :: "char \<Rightarrow> nat" where
  "byte c = of_char c"

text \<open>
  \<^verbatim>\<open>chunk.split('\n')\<close>: the pieces between line feeds; the empty string gives one empty
  piece.
\<close>

fun split_nl :: "string \<Rightarrow> string list" where
  "split_nl [] = [[]]"
| "split_nl (c # cs) =
     (if c = CHR 0x0A then [] # split_nl cs
      else (case split_nl cs of l # ls \<Rightarrow> (c # l) # ls | [] \<Rightarrow> [[c]]))"

text \<open>
  \<^verbatim>\<open>s.trim() === ''\<close>: every character of \<open>s\<close> is ECMAScript white space or a line
  terminator. Beyond ASCII these are U+00A0, U+1680, U+2000 to U+200A, U+2028, U+2029,
  U+202F, U+205F, U+3000 and U+FEFF, here in their UTF-8 bytes.
\<close>

definition ascii_space :: "char \<Rightarrow> bool" where
  "ascii_space c = (c \<in> set [CHR 0x09, CHR 0x0A, CHR 0x0B, CHR 0x0C, CHR 0x0D, CHR 0x20])"

definition wide_space :: "char \<Rightarrow> char \<Rightarrow> char \<Rightarrow> bool" where
  "wide_space a b c =
     (a = CHR 0xE1 \<and> b = CHR 0x9A \<and> c = CHR 0x80 \<or>
      a = CHR 0xE2 \<and> b = CHR 0x80 \<and>
        (0x80 \<le> byte c \<and> byte c \<le> 0x8A \<or> c = CHR 0xA8 \<or> c = CHR 0xA9 \<or> c = CHR 0xAF) \<or>
      a = CHR 0xE2 \<and> b = CHR 0x81 \<and> c = CHR 0x9F \<or>
      a = CHR 0xE3 \<and> b = CHR 0x80 \<and> c = CHR 0x80 \<or>
      a = CHR 0xEF \<and> b = CHR 0xBB \<and> c = CHR 0xBF)"

fun blank :: "string \<Rightarrow> bool" where
  "blank [] = True"
| "blank [a] = ascii_space a"
| "blank [a, b] = (if ascii_space a then blank [b] else a = CHR 0xC2 \<and> b = CHR 0xA0)"
| "blank (a # b # c # s) =
     (if ascii_space a then blank (b # c # s)
      else if a = CHR 0xC2 \<and> b = CHR 0xA0 then blank (c # s)
      else wide_space a b c \<and> blank s)"

text \<open>
  \<^verbatim>\<open>new TextDecoder()\<close> is the UTF-8 decoder of the Encoding standard, not fatal and
  not ignoring the byte order mark; \<^verbatim>\<open>decode(value, { stream: true })\<close> keeps the bytes
  of an unfinished character for the next call. The decoder's code point is kept as the
  bytes read for it (\<open>pending\<close>); its output is again UTF-8, with U+FFFD for every
  malformed sequence.
\<close>

record decoder =
  pending :: string
  bytes_needed :: nat
  lower_boundary :: nat
  upper_boundary :: nat
  bom_seen :: bool

definition new_TextDecoder :: decoder where
  "new_TextDecoder =
     \<lparr>pending = [], bytes_needed = 0, lower_boundary = 0x80, upper_boundary = 0xBF,
      bom_seen = False\<rparr>"

definition replacement :: string where
  "replacement = [CHR 0xEF, CHR 0xBF, CHR 0xBD]"

text \<open>The first character decoded is dropped when it is the byte order mark.\<close>

definition emit :: "string \<Rightarrow> decoder \<Rightarrow> string \<times> decoder" where
  "emit item d =
     (if \<not> bom_seen d \<and> item = [CHR 0xEF, CHR 0xBB, CHR 0xBF]
      then ([], d\<lparr>bom_seen := True\<rparr>)
      else (item, d\<lparr>bom_seen := True\<rparr>))"

definition reset :: "decoder \<Rightarrow> decoder" where
  "reset d = d\<lparr>pending := [], bytes_needed := 0, lower_boundary := 0x80, upper_boundary := 0xBF\<rparr>"

definition decode_lead :: "decoder \<Rightarrow> char \<Rightarrow> string \<times> decoder" where
  "decode_lead d b =
     (let n = byte b in
      if n \<le> 0x7F then emit [b] d
      else if 0xC2 \<le> n \<and> n \<le> 0xDF then ([], d\<lparr>pending := [b], bytes_needed := 1\<rparr>)
      else if 0xE0 \<le> n \<and> n \<le> 0xEF then
        ([], d\<lparr>pending := [b], bytes_needed := 2,
               lower_boundary := (if n = 0xE0 then 0xA0 else 0x80),
               upper_boundary := (if n = 0xED then 0x9F else 0xBF)\<rparr>)
      else if 0xF0 \<le> n \<and> n \<le> 0xF4 then
        ([], d\<lparr>pending := [b], bytes_needed := 3,
               lower_boundary := (if n = 0xF0 then 0x90 else 0x80),
               upper_boundary := (if n = 0xF4 then 0x8F else 0xBF)\<rparr>)
      else emit replacement d)"

definition decode_byte :: "decoder \<Rightarrow> char \<Rightarrow> string \<times> decoder" where
  "decode_byte d b =
     (if bytes_needed d = 0 then decode_lead d b
      else if byte b < lower_boundary d \<or> upper_boundary d < byte b then
        (let (o1, d1) = emit replacement (reset d);
             (o2, d2) = decode_lead d1 b
         in (o1 @ o2, d2))
      else
        (let p = pending d @ [b] in
         if length p = Suc (bytes_needed d) then emit p (reset d)
         else ([], d\<lparr>pending := p, lower_boundary := 0x80, upper_boundary := 0xBF\<rparr>)))"

text \<open>
  \<^verbatim>\<open>decoder.decode(value, { stream: true })\<close>: the text and the decoder afterwards. The
  page never calls \<^verbatim>\<open>decode\<close> without \<^verbatim>\<open>stream\<close>, so nothing flushes the decoder.
\<close>

fun decode :: "decoder \<Rightarrow> string \<Rightarrow> string \<times> decoder" where
  "decode d [] = ([], d)"
| "decode d (b # bs) =
     (let (o1, d1) = decode_byte d b;
          (o2, d2) = decode d1 bs
      in (o1 @ o2, d2))"

text \<open>
  \<^verbatim>\<open>JSON.parse\<close>: a lexer that reads one character at a time, then a parser that reads one
  token at a time with a stack of the open arrays and objects. \<open>None\<close> is the
  \<^verbatim>\<open>SyntaxError\<close> it throws.
\<close>

datatype token =
    TLBrace | TRBrace | TLBracket | TRBracket | TComma | TColon
  | TString string | TNumber string | TTrue | TFalse | TNull

datatype lexer = LStart | LString string | LEscape string | LUnicode string "nat list"
  | LNumber string | LWord string

definition digit :: "char \<Rightarrow> bool" where
  "digit c = (0x30 \<le> byte c \<and> byte c \<le> 0x39)"

definition hex_value :: "char \<Rightarrow> nat option" where
  "hex_value c =
     (let n = byte c in
      if 0x30 \<le> n \<and> n \<le> 0x39 then Some (n - 0x30)
      else if 0x41 \<le> n \<and> n \<le> 0x46 then Some (n - 0x37)
      else if 0x61 \<le> n \<and> n \<le> 0x66 then Some (n - 0x57)
      else None)"

definition lower_letter :: "char \<Rightarrow> bool" where
  "lower_letter c = (0x61 \<le> byte c \<and> byte c \<le> 0x7A)"

definition number_char :: "char \<Rightarrow> bool" where
  "number_char c = (digit c \<or> c \<in> set ''+-.eE'')"

definition json_space :: "char \<Rightarrow> bool" where
  "json_space c = (c \<in> set [CHR 0x20, CHR 0x09, CHR 0x0A, CHR 0x0D])"

definition exponent_ok :: "string \<Rightarrow> bool" where
  "exponent_ok s =
     (case s of
        [] \<Rightarrow> True
      | e # r \<Rightarrow>
          (e = CHR ''e'' \<or> e = CHR ''E'') \<and>
          (let ds = (case r of [] \<Rightarrow> [] | g # t \<Rightarrow> if g = CHR ''+'' \<or> g = CHR ''-'' then t else r)
           in ds \<noteq> [] \<and> list_all digit ds))"

definition fraction_ok :: "string \<Rightarrow> bool" where
  "fraction_ok s =
     (case s of
        [] \<Rightarrow> True
      | p # r \<Rightarrow>
          if p = CHR ''.'' then takeWhile digit r \<noteq> [] \<and> exponent_ok (dropWhile digit r)
          else exponent_ok s)"

definition number_ok :: "string \<Rightarrow> bool" where
  "number_ok s =
     (let u = (case s of [] \<Rightarrow> [] | m # r \<Rightarrow> if m = CHR ''-'' then r else s);
          ip = takeWhile digit u
      in ip \<noteq> [] \<and> (length ip = 1 \<or> hd ip \<noteq> CHR ''0'') \<and> fraction_ok (dropWhile digit u))"

text \<open>
  The escape \<^verbatim>\<open>\uXXXX\<close> names one UTF-16 code unit. It is stored in UTF-8; a low
  surrogate that follows a high one is joined with it into one character of four bytes,
  and a lone surrogate keeps its three bytes.
\<close>

definition utf8 :: "nat \<Rightarrow> string" where
  "utf8 cp =
     (if cp < 0x80 then [char_of cp]
      else if cp < 0x800 then [char_of (0xC0 + cp div 0x40), char_of (0x80 + cp mod 0x40)]
      else if cp < 0x10000 then
        [char_of (0xE0 + cp div 0x1000), char_of (0x80 + cp div 0x40 mod 0x40),
         char_of (0x80 + cp mod 0x40)]
      else
        [char_of (0xF0 + cp div 0x40000), char_of (0x80 + cp div 0x1000 mod 0x40),
         char_of (0x80 + cp div 0x40 mod 0x40), char_of (0x80 + cp mod 0x40)])"

definition push_unit :: "nat \<Rightarrow> string \<Rightarrow> string" where
  "push_unit u acc =
     (case acc of
        c3 # c2 # c1 # rest \<Rightarrow>
          if 0xDC00 \<le> u \<and> u \<le> 0xDFFF \<and> c1 = CHR 0xED \<and> 0xA0 \<le> byte c2 \<and> byte c2 \<le> 0xAF
          then rev (utf8 (0x10000 + ((byte c2 - 0xA0) * 0x40 + (byte c3 - 0x80)) * 0x400
                           + (u - 0xDC00))) @ rest
          else rev (utf8 u) @ acc
      | _ \<Rightarrow> rev (utf8 u) @ acc)"

definition word_token :: "string \<Rightarrow> token option" where
  "word_token s =
     (if s = ''true'' then Some TTrue else if s = ''false'' then Some TFalse
      else if s = ''null'' then Some TNull else None)"

definition number_token :: "string \<Rightarrow> token option" where
  "number_token s = (if number_ok s then Some (TNumber s) else None)"

definition punctuation :: "char \<Rightarrow> token option" where
  "punctuation c =
     (if c = CHR ''{'' then Some TLBrace else if c = CHR ''}'' then Some TRBrace
      else if c = CHR ''['' then Some TLBracket else if c = CHR '']'' then Some TRBracket
      else if c = CHR '','' then Some TComma else if c = CHR '':'' then Some TColon
      else None)"

text \<open>One character in each lexer state: the tokens completed and the next state.\<close>

definition lex_start :: "char \<Rightarrow> (token list \<times> lexer) option" where
  "lex_start c =
     (if json_space c then Some ([], LStart)
      else if c = CHR 0x22 then Some ([], LString [])
      else if digit c \<or> c = CHR ''-'' then Some ([], LNumber [c])
      else if lower_letter c then Some ([], LWord [c])
      else map_option (\<lambda>t. ([t], LStart)) (punctuation c))"

definition after_token :: "token option \<Rightarrow> char \<Rightarrow> (token list \<times> lexer) option" where
  "after_token t c =
     (case t of
        None \<Rightarrow> None
      | Some x \<Rightarrow> map_option (\<lambda>(ts, l). (x # ts, l)) (lex_start c))"

fun lex_char :: "lexer \<Rightarrow> char \<Rightarrow> (token list \<times> lexer) option" where
  "lex_char LStart c = lex_start c"
| "lex_char (LString acc) c =
     (if c = CHR 0x22 then Some ([TString (rev acc)], LStart)
      else if c = CHR 0x5C then Some ([], LEscape acc)
      else if byte c < 0x20 then None
      else Some ([], LString (c # acc)))"
| "lex_char (LEscape acc) c =
     (if c = CHR 0x22 \<or> c = CHR 0x5C \<or> c = CHR ''/'' then Some ([], LString (c # acc))
      else if c = CHR ''b'' then Some ([], LString (CHR 0x08 # acc))
      else if c = CHR ''f'' then Some ([], LString (CHR 0x0C # acc))
      else if c = CHR ''n'' then Some ([], LString (CHR 0x0A # acc))
      else if c = CHR ''r'' then Some ([], LString (CHR 0x0D # acc))
      else if c = CHR ''t'' then Some ([], LString (CHR 0x09 # acc))
      else if c = CHR ''u'' then Some ([], LUnicode acc [])
      else None)"
| "lex_char (LUnicode acc ds) c =
     (case hex_value c of
        None \<Rightarrow> None
      | Some h \<Rightarrow>
          if length ds = 3
          then Some ([], LString (push_unit (foldl (\<lambda>v x. 16 * v + x) 0 (ds @ [h])) acc))
          else Some ([], LUnicode acc (ds @ [h])))"
| "lex_char (LNumber acc) c =
     (if number_char c then Some ([], LNumber (c # acc))
      else after_token (number_token (rev acc)) c)"
| "lex_char (LWord acc) c =
     (if lower_letter c then Some ([], LWord (c # acc))
      else after_token (word_token (rev acc)) c)"

fun lex_end :: "lexer \<Rightarrow> token list option" where
  "lex_end LStart = Some []"
| "lex_end (LNumber acc) = map_option (\<lambda>t. [t]) (number_token (rev acc))"
| "lex_end (LWord acc) = map_option (\<lambda>t. [t]) (word_token (rev acc))"
| "lex_end _ = None"

fun lex :: "lexer \<Rightarrow> string \<Rightarrow> token list option" where
  "lex l [] = lex_end l"
| "lex l (c # cs) =
     (case lex_char l c of
        None \<Rightarrow> None
      | Some (ts, l') \<Rightarrow> map_option ((@) ts) (lex l' cs))"

datatype frame = FArray "json list" | FObject "(string \<times> json) list"
  | FMember "(string \<times> json) list" string

datatype parser =
    PValue "frame list"
  | PArrayStart "frame list"
  | PObjectStart "frame list"
  | PKey "(string \<times> json) list" "frame list"
  | PColon "(string \<times> json) list" string "frame list"
  | PAfter "frame list"
  | PDone json

fun put :: "json \<Rightarrow> frame list \<Rightarrow> parser option" where
  "put v [] = Some (PDone v)"
| "put v (FArray es # st) = Some (PAfter (FArray (v # es) # st))"
| "put v (FMember ms k # st) = Some (PAfter (FObject ((k, v) # ms) # st))"
| "put v (FObject ms # st) = None"

fun start_value :: "token \<Rightarrow> frame list \<Rightarrow> parser option" where
  "start_value (TString s) st = put (JString s) st"
| "start_value (TNumber n) st = put (JNumber n) st"
| "start_value TTrue st = put (JBool True) st"
| "start_value TFalse st = put (JBool False) st"
| "start_value TNull st = put JNull st"
| "start_value TLBracket st = Some (PArrayStart st)"
| "start_value TLBrace st = Some (PObjectStart st)"
| "start_value _ st = None"

fun parse_step :: "parser \<Rightarrow> token \<Rightarrow> parser option" where
  "parse_step (PValue st) t = start_value t st"
| "parse_step (PArrayStart st) t =
     (if t = TRBracket then put (JArray []) st else start_value t (FArray [] # st))"
| "parse_step (PObjectStart st) t =
     (case t of TRBrace \<Rightarrow> put (JObject []) st | TString k \<Rightarrow> Some (PColon [] k st)
      | _ \<Rightarrow> None)"
| "parse_step (PKey ms st) t = (case t of TString k \<Rightarrow> Some (PColon ms k st) | _ \<Rightarrow> None)"
| "parse_step (PColon ms k st) t = (if t = TColon then Some (PValue (FMember ms k # st)) else None)"
| "parse_step (PAfter (FArray es # st)) t =
     (case t of TComma \<Rightarrow> Some (PValue (FArray es # st))
      | TRBracket \<Rightarrow> put (JArray (rev es)) st | _ \<Rightarrow> None)"
| "parse_step (PAfter (FObject ms # st)) t =
     (case t of TComma \<Rightarrow> Some (PKey ms st)
      | TRBrace \<Rightarrow> put (JObject (rev ms)) st | _ \<Rightarrow> None)"
| "parse_step (PAfter _) t = None"
| "parse_step (PDone v) t = None"

fun parse_tokens :: "parser \<Rightarrow> token list \<Rightarrow> json option" where
  "parse_tokens (PDone v) [] = Some v"
| "parse_tokens _ [] = None"
| "parse_tokens p (t # ts) =
     (case parse_step p t of None \<Rightarrow> None | Some p' \<Rightarrow> parse_tokens p' ts)"

definition JSON_parse :: "string \<Rightarrow> json option" where
  "JSON_parse s = (case lex LStart s of None \<Rightarrow> None | Some ts \<Rightarrow> parse_tokens (PValue []) ts)"

section \<open>The session state and its setters\<close>

text \<open>
  What the page does to the outside, in the order it does it: calls of the state setters
  (with the log that results), requests, the cancellation of the stream reader, timers.
\<close>

datatype event =
    EvSetInput string
  | EvSetLoading bool
  | EvSetMessages "message list"
  | EvSetIsServerReady bool
  | EvFetch string string "json option"
  | EvCancel
  | EvSetTimeout nat

record world =
  messages :: "message list"
  input :: string
  loading :: bool
  isServerReady :: bool
  trace :: "event list"

definition setInput :: "string \<Rightarrow> world \<Rightarrow> world" where
  "setInput v w = w\<lparr>input := v, trace := trace w @ [EvSetInput v]\<rparr>"

definition setLoading :: "bool \<Rightarrow> world \<Rightarrow> world" where
  "setLoading v w = w\<lparr>loading := v, trace := trace w @ [EvSetLoading v]\<rparr>"

definition setIsServerReady :: "bool \<Rightarrow> world \<Rightarrow> world" where
  "setIsServerReady v w = w\<lparr>isServerReady := v, trace := trace w @ [EvSetIsServerReady v]\<rparr>"

text \<open>
  \<^verbatim>\<open>setMessages(prevMessages => ...)\<close>: the updater is applied to the current log. React
  runs the updaters in the order of the calls; each one is taken here to run at its call.
  Run later, an updater of a chunk would read an accumulator that has grown meanwhile,
  which changes the logs in between and not the last one.
\<close>

definition setMessages :: "(message list \<Rightarrow> message list) \<Rightarrow> world \<Rightarrow> world" where
  "setMessages f w =
     (let ms = f (messages w) in w\<lparr>messages := ms, trace := trace w @ [EvSetMessages ms]\<rparr>)"

subsection \<open>The updaters of the message log\<close>

text \<open>
  \<^verbatim>\<open>prevMessages[prevMessages.length - 1]\<close> is \<^verbatim>\<open>undefined\<close> on the empty log, and
  \<^verbatim>\<open>lastMessage && lastMessage.role === 'assistant'\<close> is then false.
\<close>

definition lastMessage :: "message list \<Rightarrow> message option" where
  "lastMessage prevMessages = (if prevMessages = [] then None else Some (last prevMessages))"

text \<open>The updater of a chunk event (lines 123 to 132); \<^verbatim>\<open>slice(0, -1)\<close> is \<^const>\<open>butlast\<close>.\<close>

definition chunk_update :: "string \<Rightarrow> message list \<Rightarrow> message list" where
  "chunk_update accumulatedContent prevMessages =
     (case lastMessage prevMessages of
        Some lm \<Rightarrow>
          if role lm = Assistant
          then butlast prevMessages @ [lm\<lparr>content := accumulatedContent\<rparr>]
          else prevMessages
      | None \<Rightarrow> prevMessages)"

text \<open>The updater of an error event (lines 135 to 144).\<close>

definition error_update :: "string \<Rightarrow> string \<Rightarrow> message list \<Rightarrow> message list" where
  "error_update accumulatedContent err prevMessages =
     (let fresh = \<lparr>role = Assistant, content = ''Error: '' @ err, isError = Some True\<rparr>
      in case lastMessage prevMessages of
           Some lm \<Rightarrow>
             if role lm = Assistant
             then butlast prevMessages @
                    [lm\<lparr>content := accumulatedContent @ [CHR 0x0A, CHR 0x0A] @ ''Error: '' @ err,
                        isError := Some True\<rparr>]
             else prevMessages @ [fresh]
         | None \<Rightarrow> prevMessages @ [fresh])"

text \<open>The updater of the outer \<^verbatim>\<open>catch\<close> (lines 160 to 169).\<close>

definition catch_update :: "string \<Rightarrow> message list \<Rightarrow> message list" where
  "catch_update msg prevMessages =
     (let text = ''Error: Could not stream response. Details: '' @ msg
      in case lastMessage prevMessages of
           Some lm \<Rightarrow>
             if role lm = Assistant
             then butlast prevMessages @ [lm\<lparr>content := text, isError := Some True\<rparr>]
             else prevMessages @ [\<lparr>role = Assistant, content = text, isError = Some True\<rparr>]
         | None \<Rightarrow> prevMessages @ [\<lparr>role = Assistant, content = text, isError = Some True\<rparr>])"

section \<open>Submitting a question: \<^verbatim>\<open>handleSubmit\<close>\<close>

subsection \<open>Reading a parsed event\<close>

text \<open>
  \<^verbatim>\<open>parsed.type\<close>, \<^verbatim>\<open>parsed.content\<close>, \<^verbatim>\<open>parsed.error\<close> and \<^verbatim>\<open>data.status\<close> on a value
  that is not \<^verbatim>\<open>null\<close>: the member of an object (the last one of that name), and
  \<^verbatim>\<open>undefined\<close> (\<open>None\<close>) on an object without it, on an array and on a primitive value.
\<close>

fun property :: "json \<Rightarrow> string \<Rightarrow> json option" where
  "property (JObject members) name = map_of (rev members) name"
| "property _ name = None"

text \<open>The \<^verbatim>\<open>typeof\<close> operator; \<open>None\<close> is \<^verbatim>\<open>undefined\<close>.\<close>

fun typeof :: "json option \<Rightarrow> string" where
  "typeof None = ''undefined''"
| "typeof (Some JNull) = ''object''"
| "typeof (Some (JBool b)) = ''boolean''"
| "typeof (Some (JNumber n)) = ''number''"
| "typeof (Some (JString s)) = ''string''"
| "typeof (Some (JArray es)) = ''object''"
| "typeof (Some (JObject ms)) = ''object''"

text \<open>The text of a value whose \<^verbatim>\<open>typeof\<close> is \<^verbatim>\<open>'string'\<close>.\<close>

fun string_of :: "json option \<Rightarrow> string" where
  "string_of (Some (JString s)) = s"
| "string_of _ = []"

subsection \<open>The stream\<close>

text \<open>
  What one \<^verbatim>\<open>await reader.read()\<close> does: it delivers the next bytes or it rejects. The
  reader is the list of the reads still to come; on the empty list \<^verbatim>\<open>read()\<close> reports
  \<^verbatim>\<open>done\<close>. \<^verbatim>\<open>reader.cancel()\<close> closes the stream and discards what is queued, so the
  next \<^verbatim>\<open>read()\<close> reports \<^verbatim>\<open>done\<close>.
\<close>

datatype read = Value string | ReadThrows string

text \<open>
  \<^verbatim>\<open>fetch\<close> rejects with an error message, or resolves to a response with its status, its
  status text and its body (\<open>None\<close> is \<^verbatim>\<open>null\<close>); \<^verbatim>\<open>response.ok\<close> is a status from 200
  to 299.
\<close>

datatype response = Response nat string "read list option"

datatype fetch_result = FetchThrows string | Fetched response

definition ok :: "nat \<Rightarrow> bool" where
  "ok status = (200 \<le> status \<and> status \<le> 299)"

definition fetch :: "string \<Rightarrow> string \<Rightarrow> json option \<Rightarrow> world \<Rightarrow> world" where
  "fetch method url body w = w\<lparr>trace := trace w @ [EvFetch method url body]\<rparr>"

definition reader_cancel :: "world \<Rightarrow> world" where
  "reader_cancel w = w\<lparr>trace := trace w @ [EvCancel]\<rparr>"

definition setTimeout :: "nat \<Rightarrow> world \<Rightarrow> world" where
  "setTimeout ms w = w\<lparr>trace := trace w @ [EvSetTimeout ms]\<rparr>"

subsection \<open>One line, one read, the whole stream\<close>

datatype flow = Next | Break

text \<open>
  The body of \<^verbatim>\<open>for (const line of lines)\<close> (lines 115 to 154), from the accumulator
  and the state before the line to those after it. A line that does not parse is caught
  inside the loop body and logged to the console; so are the values that are not events.
\<close>

definition process_line :: "string \<Rightarrow> world \<Rightarrow> string \<Rightarrow> flow \<times> string \<times> world" where
  "process_line accumulatedContent w line =
     (if prefix ''data: '' line then
        (case JSON_parse (drop 6 line) of
           None \<Rightarrow> (Next, accumulatedContent, w)
         | Some parsed \<Rightarrow>
             if typeof (Some parsed) = ''object'' \<and> parsed \<noteq> JNull then
               if property parsed ''type'' = Some (JString ''chunk'') \<and>
                  typeof (property parsed ''content'') = ''string''
               then
                 (let acc = accumulatedContent @ string_of (property parsed ''content'')
                  in (Next, acc, setMessages (chunk_update acc) w))
               else if property parsed ''type'' = Some (JString ''error'') \<and>
                       typeof (property parsed ''error'') = ''string''
               then
                 (Break, accumulatedContent,
                  reader_cancel
                    (setMessages
                       (error_update accumulatedContent (string_of (property parsed ''error'')))
                       w))
               else (Next, accumulatedContent, w)
             else (Next, accumulatedContent, w))
      else (Next, accumulatedContent, w))"

text \<open>The \<^verbatim>\<open>for\<close> loop over the lines of one read; \<^verbatim>\<open>break\<close> leaves this loop only.\<close>

fun process_lines :: "string \<Rightarrow> world \<Rightarrow> string list \<Rightarrow> flow \<times> string \<times> world" where
  "process_lines acc w [] = (Next, acc, w)"
| "process_lines acc w (line # lines) =
     (case process_line acc w line of
        (Break, acc', w') \<Rightarrow> (Break, acc', w')
      | (Next, acc', w') \<Rightarrow> process_lines acc' w' lines)"

text \<open>\<^verbatim>\<open>chunk.split('\n').filter(line => line.trim() !== '')\<close>\<close>

definition lines_of :: "string \<Rightarrow> string list" where
  "lines_of chunk = filter (\<lambda>line. \<not> blank line) (split_nl chunk)"

text \<open>
  The \<^verbatim>\<open>while (true)\<close> loop (lines 104 to 156). The result is the message of the exception
  that leaves the loop, if any, and the state. After \<^verbatim>\<open>reader.cancel(); break\<close> the loop
  reads once more, from the closed stream.
\<close>

fun consume :: "decoder \<Rightarrow> string \<Rightarrow> world \<Rightarrow> read list \<Rightarrow> string option \<times> world" where
  "consume d acc w [] = (None, w)"
| "consume d acc w (ReadThrows msg # reader) = (Some msg, w)"
| "consume d acc w (Value v # reader) =
     (case decode d v of
        (chunk, d') \<Rightarrow>
          (case process_lines acc w (lines_of chunk) of
             (Break, acc', w') \<Rightarrow> consume d' acc' w' []
           | (Next, acc', w') \<Rightarrow> consume d' acc' w' reader))"

subsection \<open>The handler\<close>

text \<open>A number in a template literal, for \<^verbatim>\<open>${response.status}\<close>.\<close>

function decimal :: "nat \<Rightarrow> string" where
  "decimal n =
     (if n < 10 then [char_of (48 + n)] else decimal (n div 10) @ [char_of (48 + n mod 10)])"
  by pat_completeness auto
termination
  by (relation "measure id") auto

text \<open>
  \<^verbatim>\<open>process.env\<close> maps a variable to its value; a variable that is not set is
  \<^verbatim>\<open>undefined\<close>, and a template literal prints it as that word.
\<close>

type_synonym env = "string \<rightharpoonup> string"

definition template :: "string option \<Rightarrow> string" where
  "template v = (case v of None \<Rightarrow> ''undefined'' | Some s \<Rightarrow> s)"

text \<open>
  The \<^verbatim>\<open>try\<close> block (lines 85 to 156): the request, the check of the response, the loop.
  The request body \<^verbatim>\<open>JSON.stringify({ question: userQuery })\<close> is recorded as the object
  that is written. \<open>variable\<close> is the environment variable the revision reads:
  \<^verbatim>\<open>NEXT_PUBLIC_API_URL\<close> in \<^verbatim>\<open>frontend/app/page.tsx\<close>, \<^verbatim>\<open>NEXT_PUBLIC_PYTHON_BACKEND_URL\<close> in
  the earlier revision of the page.
\<close>

fun try_block :: "string \<Rightarrow> env \<Rightarrow> fetch_result \<Rightarrow> string \<Rightarrow> world \<Rightarrow> string option \<times> world" where
  "try_block variable env (FetchThrows msg) userQuery w =
     (Some msg,
      fetch ''POST'' (template (env variable) @ ''/ask'')
        (Some (JObject [(''question'', JString userQuery)])) w)"
| "try_block variable env (Fetched (Response status statusText body)) userQuery w =
     (let w' = fetch ''POST'' (template (env variable) @ ''/ask'')
                 (Some (JObject [(''question'', JString userQuery)])) w
      in if \<not> ok status \<or> body = None
         then (Some (''Failed to fetch response: '' @ decimal status @ '' '' @ statusText), w')
         else (case body of
                 Some reader \<Rightarrow> consume new_TextDecoder [] w' reader
               | None \<Rightarrow> (None, w')))"

text \<open>
  \<^verbatim>\<open>handleSubmit\<close> (lines 71 to 173), with the \<^verbatim>\<open>catch\<close> and \<^verbatim>\<open>finally\<close> blocks.
  \<open>net\<close> is what the network does with the request. The guard reads the input and the
  busy flag of the render that made the handler, taken here to be the current state.
\<close>

definition submit :: "string \<Rightarrow> env \<Rightarrow> fetch_result \<Rightarrow> world \<Rightarrow> world" where
  "submit variable env net w =
     (if blank (input w) \<or> loading w then w
      else
        (let userQuery = input w;
             w1 = setLoading True (setInput [] w);
             w2 = setMessages
                    (\<lambda>prevMessages. prevMessages @
                       [\<lparr>role = User, content = userQuery, isError = None\<rparr>]) w1;
             w3 = setMessages
                    (\<lambda>prevMessages. prevMessages @
                       [\<lparr>role = Assistant, content = [], isError = None\<rparr>]) w2
         in case try_block variable env net userQuery w3 of
              (None, w4) \<Rightarrow> setLoading False w4
            | (Some msg, w4) \<Rightarrow> setLoading False (setMessages (catch_update msg) w4)))"

definition handleSubmit :: "env \<Rightarrow> fetch_result \<Rightarrow> world \<Rightarrow> world" where
  "handleSubmit = submit ''NEXT_PUBLIC_API_URL''"

definition handleSubmit_earlier :: "env \<Rightarrow> fetch_result \<Rightarrow> world \<Rightarrow> world" where
  "handleSubmit_earlier = submit ''NEXT_PUBLIC_PYTHON_BACKEND_URL''"

section \<open>The readiness poller: \<^verbatim>\<open>checkServerStatus\<close>\<close>

text \<open>
  What one request to the health endpoint does: \<^verbatim>\<open>fetch\<close> rejects, or it resolves with a
  status and \<^verbatim>\<open>response.json()\<close> rejects (\<open>None\<close>) or gives a value.
\<close>

datatype health = HealthThrows | HealthResponse nat "json option"

text \<open>
  Whether the \<^verbatim>\<open>try\<close> block reaches \<^verbatim>\<open>setIsServerReady(true)\<close>. Reading \<^verbatim>\<open>data.status\<close>
  of \<^verbatim>\<open>null\<close> throws, and the \<^verbatim>\<open>catch\<close> swallows it like the other failures.
\<close>

fun ready :: "health \<Rightarrow> bool" where
  "ready HealthThrows = False"
| "ready (HealthResponse status None) = False"
| "ready (HealthResponse status (Some data)) =
     (ok status \<and> data \<noteq> JNull \<and> property data ''status'' = Some (JString ''ready''))"

text \<open>
  \<^verbatim>\<open>checkServerStatus\<close> (lines 45 to 62), run on the answers that the successive requests
  get; when they are used up a request is in flight. \<^verbatim>\<open>setTimeout(checkServerStatus, 2000)\<close>
  is the timer event followed by the next run.
\<close>

fun checkServerStatus :: "env \<Rightarrow> health list \<Rightarrow> world \<Rightarrow> world" where
  "checkServerStatus env [] w =
     fetch ''GET'' (template (env ''NEXT_PUBLIC_BACKEND_URL'') @ ''/health'') None w"
| "checkServerStatus env (h # hs) w =
     (let w' = fetch ''GET'' (template (env ''NEXT_PUBLIC_BACKEND_URL'') @ ''/health'') None w
      in if ready h then setIsServerReady True w'
         else checkServerStatus env hs (setTimeout 2000 w'))"

section \<open>Vocabulary of the properties\<close>

text \<open>
  The event a parsed value stands for, by the tests of lines 120 to 133, and the event a
  line of the stream carries: none when the line lacks the prefix or does not parse.
\<close>

datatype stream_event = Chunk string | Error string | Unrecognized

definition event_of :: "json \<Rightarrow> stream_event" where
  "event_of parsed =
     (if typeof (Some parsed) = ''object'' \<and> parsed \<noteq> JNull then
        if property parsed ''type'' = Some (JString ''chunk'') \<and>
           typeof (property parsed ''content'') = ''string''
        then Chunk (string_of (property parsed ''content''))
        else if property parsed ''type'' = Some (JString ''error'') \<and>
                typeof (property parsed ''error'') = ''string''
        then Error (string_of (property parsed ''error''))
        else Unrecognized
      else Unrecognized)"

definition line_event :: "string \<Rightarrow> stream_event option" where
  "line_event line =
     (if prefix ''data: '' line then map_option event_of (JSON_parse (drop 6 line)) else None)"


definition chunk_texts :: "string list \<Rightarrow> string list" where
  "chunk_texts ls =
     concat (map (\<lambda>l. case line_event l of Some (Chunk c) \<Rightarrow> [c] | _ \<Rightarrow> []) ls)"

definition error_line :: "string \<Rightarrow> bool" where
  "error_line l = (case line_event l of Some (Error X) \<Rightarrow> True | _ \<Rightarrow> False)"

text \<open>The events a run adds to the trace, and what they do to the flag and to the log.\<close>

definition new_events :: "world \<Rightarrow> world \<Rightarrow> event list" where
  "new_events w w' = drop (length (trace w)) (trace w')"

fun loading_updates :: "event list \<Rightarrow> bool list" where
  "loading_updates [] = []"
| "loading_updates (EvSetLoading b # es) = b # loading_updates es"
| "loading_updates (e # es) = loading_updates es"

fun message_logs :: "event list \<Rightarrow> message list list" where
  "message_logs [] = []"
| "message_logs (EvSetMessages l # es) = l # message_logs es"
| "message_logs (e # es) = message_logs es"

fun fetch_urls :: "event list \<Rightarrow> string list" where
  "fetch_urls [] = []"
| "fetch_urls (EvFetch method url body # es) = url # fetch_urls es"
| "fetch_urls (e # es) = fetch_urls es"

text \<open>
  A log whose last element is an assistant message, the open one, after the fixed
  messages \<open>before\<close>.
\<close>

definition open_last :: "message list \<Rightarrow> message list \<Rightarrow> bool" where
  "open_last before l = (l \<noteq> [] \<and> butlast l = before \<and> role (last l) = Assistant)"

text \<open>
  What the \<^verbatim>\<open>try\<close> block may do: update the log, cancel the reader, send the request.
  \<open>extends P w w'\<close>: from \<open>w\<close> to \<open>w'\<close> only such events were added, every log
  satisfies \<open>P\<close>, and the input, the busy flag and the readiness flag are as before.
\<close>

fun stream_effect :: "(message list \<Rightarrow> bool) \<Rightarrow> event \<Rightarrow> bool" where
  "stream_effect P (EvSetMessages l) = P l"
| "stream_effect P EvCancel = True"
| "stream_effect P (EvFetch m u b) = True"
| "stream_effect P _ = False"

definition extends :: "(message list \<Rightarrow> bool) \<Rightarrow> world \<Rightarrow> world \<Rightarrow> bool" where
  "extends P w w' =
     (input w' = input w \<and> loading w' = loading w \<and> isServerReady w' = isServerReady w \<and>
      P (messages w') \<and>
      (\<exists>new. trace w' = trace w @ new \<and> list_all (stream_effect P) new))"

text \<open>The events of \<open>n\<close> polls that did not find the backend ready.\<close>

definition poll_events :: "env \<Rightarrow> nat \<Rightarrow> event list" where
  "poll_events env n =
     concat (replicate n
       [EvFetch ''GET'' (template (env ''NEXT_PUBLIC_BACKEND_URL'') @ ''/health'') None,
        EvSetTimeout 2000])"

text \<open>Between characters and inside one, a continuation byte is 0x80 or more.\<close>

definition decoder_ok :: "decoder \<Rightarrow> bool" where
  "decoder_ok d = (0x80 \<le> lower_boundary d)"

subsection \<open>Concrete runs\<close>

text \<open>
  An idle page with the question \<open>X\<close> typed in; a page in the middle of a submission;
  the environment of the README's \<^verbatim>\<open>example.env\<close>; lines of a stream and two ways to
  deliver them.
\<close>

definition idle :: world where
  "idle = \<lparr>messages = [], input = ''X'', loading = False, isServerReady = True, trace = []\<rparr>"

definition streaming :: world where
  "streaming =
     \<lparr>messages = [\<lparr>role = User, content = ''X'', isError = None\<rparr>,
                  \<lparr>role = Assistant, content = ''Partial answer'', isError = None\<rparr>],
      input = ''next question'', loading = True, isServerReady = True, trace = []\<rparr>"

definition readme_env :: env where
  "readme_env = [''NEXT_PUBLIC_BACKEND_URL'' \<mapsto> ''http://localhost:8000'']"

definition chunk_a :: string where
  \<open>chunk_a = ''data: {"type":"chunk","content":"A Certificate "}''\<close>

definition chunk_b :: string where
  \<open>chunk_b = ''data: {"type":"chunk","content":"of Occupancy is..."}''\<close>

definition error_c :: string where
  \<open>error_c = ''data: {"type":"error","error":"rate limited"}''\<close>

definition two_reads :: "string list" where
  "two_reads = [chunk_a @ [CHR 0x0A, CHR 0x0A], chunk_b @ [CHR 0x0A, CHR 0x0A]]"

definition one_read :: "string list" where
  "one_read = [chunk_a @ [CHR 0x0A, CHR 0x0A] @ chunk_b @ [CHR 0x0A, CHR 0x0A]]"

text \<open>A log that ends with the user's message; a stream whose error line is cut by a read.\<close>

definition asked :: world where
  "asked =
     \<lparr>messages = [\<lparr>role = User, content = ''X'', isError = None\<rparr>],
      input = [], loading = True, isServerReady = True, trace = []\<rparr>"

definition cut_error_bytes :: "string list" where
  \<open>cut_error_bytes =
     [chunk_a @ [CHR 0x0A] @ ''data: {"type":"err'',
      ''or","error":"rate limited"}'' @ [CHR 0x0A] @ chunk_b @ [CHR 0x0A]]\<close>

section \<open>Auxiliary facts\<close>

lemma process_line_event:
  "process_line acc w line =
     (case line_event line of
        Some (Chunk c) \<Rightarrow> (Next, acc @ c, setMessages (chunk_update (acc @ c)) w)
      | Some (Error e) \<Rightarrow> (Break, acc, reader_cancel (setMessages (error_update acc e) w))
      | _ \<Rightarrow> (Next, acc, w))"
  by (simp add: process_line_def line_event_def event_of_def Let_def split: option.splits)


lemma process_lines_append:
  "process_lines acc w (xs @ ys) =
     (case process_lines acc w xs of
        (Break, r) \<Rightarrow> (Break, r)
      | (Next, acc', w') \<Rightarrow> process_lines acc' w' ys)"
  by (induction xs arbitrary: acc w) (auto split: prod.splits flow.splits)

lemmas world_ops = setInput_def setLoading_def setMessages_def setIsServerReady_def
  fetch_def reader_cancel_def setTimeout_def

lemma loading_updates_append [simp]:
  "loading_updates (xs @ ys) = loading_updates xs @ loading_updates ys"
  by (induction xs rule: loading_updates.induct) auto

lemma message_logs_append [simp]:
  "message_logs (xs @ ys) = message_logs xs @ message_logs ys"
  by (induction xs rule: message_logs.induct) auto

lemma stream_effect_loading: "list_all (stream_effect P) new \<Longrightarrow> loading_updates new = []"
  by (induction new rule: loading_updates.induct) auto

lemma stream_effect_logs: "list_all (stream_effect P) new \<Longrightarrow> list_all P (message_logs new)"
  by (induction new rule: message_logs.induct) auto

lemma extends_refl: "P (messages w) \<Longrightarrow> extends P w w"
  by (simp add: extends_def)

lemma extends_trans: "extends P w w' \<Longrightarrow> extends P w' w'' \<Longrightarrow> extends P w w''"
  by (auto simp: extends_def)

lemma extends_setMessages: "P (f (messages w)) \<Longrightarrow> extends P w (setMessages f w)"
  by (simp add: extends_def setMessages_def Let_def)

lemma extends_cancel: "P (messages w) \<Longrightarrow> extends P w (reader_cancel w)"
  by (simp add: extends_def reader_cancel_def)

lemma extends_fetch: "P (messages w) \<Longrightarrow> extends P w (fetch m u b w)"
  by (simp add: extends_def fetch_def)

lemma extends_holds: "extends P w w' \<Longrightarrow> P (messages w')"
  by (simp add: extends_def)

lemma open_last_chunk: "open_last p l \<Longrightarrow> open_last p (chunk_update acc l)"
  by (auto simp: open_last_def chunk_update_def lastMessage_def)

lemma open_last_error: "open_last p l \<Longrightarrow> open_last p (error_update acc e l)"
  by (auto simp: open_last_def error_update_def lastMessage_def)

lemma open_last_catch: "open_last p l \<Longrightarrow> open_last p (catch_update m l)"
  by (auto simp: open_last_def catch_update_def lastMessage_def)

lemma extends_process_line:
  assumes "open_last p (messages w)"
  shows "extends (open_last p) w (snd (snd (process_line acc w line)))"
proof (cases "line_event line")
  case None
  then show ?thesis using assms by (simp add: process_line_event extends_refl)
next
  case (Some ev)
  show ?thesis
  proof (cases ev)
    case (Chunk c)
    with Some assms show ?thesis
      by (simp add: process_line_event extends_setMessages open_last_chunk)
  next
    case (Error e)
    have "extends (open_last p) w (setMessages (error_update acc e) w)"
      using assms by (simp add: extends_setMessages open_last_error)
    moreover from this have "extends (open_last p) (setMessages (error_update acc e) w)
        (reader_cancel (setMessages (error_update acc e) w))"
      by (intro extends_cancel extends_holds)
    ultimately show ?thesis
      using Some Error by (simp add: process_line_event extends_trans)
  next
    case Unrecognized
    with Some assms show ?thesis by (simp add: process_line_event extends_refl)
  qed
qed

lemma extends_process_lines:
  "open_last p (messages w) \<Longrightarrow> extends (open_last p) w (snd (snd (process_lines acc w ls)))"
proof (induction ls arbitrary: acc w)
  case Nil
  then show ?case by (simp add: extends_refl)
next
  case (Cons l ls)
  obtain f a x where pl: "process_line acc w l = (f, a, x)"
    by (cases "process_line acc w l") auto
  have ex: "extends (open_last p) w x"
    using extends_process_line [OF Cons.prems, of acc l] pl by simp
  show ?case
  proof (cases f)
    case Next
    have "extends (open_last p) x (snd (snd (process_lines a x ls)))"
      by (rule Cons.IH) (rule extends_holds [OF ex])
    with ex pl Next show ?thesis by (auto intro: extends_trans)
  next
    case Break
    with ex pl show ?thesis by simp
  qed
qed

lemma extends_consume:
  "open_last p (messages w) \<Longrightarrow> extends (open_last p) w (snd (consume d acc w reader))"
proof (induction d acc w reader rule: consume.induct)
  case (1 d acc w)
  then show ?case by (simp add: extends_refl)
next
  case (2 d acc w msg reader)
  then show ?case by (simp add: extends_refl)
next
  case (3 d acc w v reader)
  obtain chunk d' where dec: "decode d v = (chunk, d')"
    by (cases "decode d v") auto
  obtain f a x where pl: "process_lines acc w (lines_of chunk) = (f, a, x)"
    by (cases "process_lines acc w (lines_of chunk)") auto
  have ex: "extends (open_last p) w x"
    using extends_process_lines [OF "3.prems", of acc "lines_of chunk"] pl by simp
  show ?case
  proof (cases f)
    case Next
    have "extends (open_last p) x (snd (consume d' a x reader))"
      using "3.IH"(1) [OF dec [symmetric] pl [symmetric]] Next extends_holds [OF ex] by simp
    with ex dec pl Next show ?thesis by (auto intro: extends_trans)
  next
    case Break
    with ex dec pl show ?thesis by simp
  qed
qed

lemma extends_try_block:
  "open_last p (messages w) \<Longrightarrow>
   extends (open_last p) w (snd (try_block variable env net q w))"
proof (cases net)
  case (FetchThrows msg)
  assume "open_last p (messages w)"
  with FetchThrows show ?thesis by (simp add: extends_fetch)
next
  case (Fetched r)
  assume P: "open_last p (messages w)"
  obtain status statusText body where r: "r = Response status statusText body"
    by (cases r) auto
  let ?w = "fetch ''POST'' (template (env variable) @ ''/ask'')
                 (Some (JObject [(''question'', JString q)])) w"
  have f: "extends (open_last p) w ?w" using P by (rule extends_fetch)
  show ?thesis
  proof (cases body)
    case None
    with Fetched r f show ?thesis by (simp add: Let_def)
  next
    case (Some reader)
    have "extends (open_last p) ?w (snd (consume new_TextDecoder [] ?w reader))"
      by (rule extends_consume) (rule extends_holds [OF f])
    with f have "extends (open_last p) w (snd (consume new_TextDecoder [] ?w reader))"
      by (rule extends_trans)
    with Fetched r f Some show ?thesis by (simp add: Let_def)
  qed
qed

lemma butlast_two: "butlast (xs @ [a, b]) = xs @ [a]"
  by (simp add: butlast_append)

lemma submit_accepted:
  fixes w :: world and variable :: string and env :: env and net :: fetch_result
  assumes "\<not> blank (input w)" "\<not> loading w"
  defines "u \<equiv> \<lparr>role = User, content = input w, isError = None\<rparr>"
  defines "a0 \<equiv> \<lparr>role = Assistant, content = [], isError = None\<rparr>"
  defines "w' \<equiv> submit variable env net w"
  shows "\<exists>new. trace w' =
           trace w @ [EvSetInput [], EvSetLoading True, EvSetMessages (messages w @ [u]),
                      EvSetMessages (messages w @ [u, a0])] @ new @ [EvSetLoading False] \<and>
           list_all (stream_effect (open_last (messages w @ [u]))) new \<and>
           open_last (messages w @ [u]) (messages w') \<and>
           loading w' = False \<and> input w' = [] \<and> isServerReady w' = isServerReady w"
proof -
  let ?P = "open_last (messages w @ [u])"
  define w3 where "w3 = setMessages (\<lambda>prevMessages. prevMessages @ [a0])
              (setMessages (\<lambda>prevMessages. prevMessages @ [u])
                (setLoading True (setInput [] w)))"
  have w3: "trace w3 = trace w @ [EvSetInput [], EvSetLoading True,
                EvSetMessages (messages w @ [u]), EvSetMessages (messages w @ [u, a0])]"
    "messages w3 = messages w @ [u, a0]" "input w3 = []" "isServerReady w3 = isServerReady w"
    by (simp_all add: w3_def world_ops Let_def)
  have P3: "?P (messages w3)"
    by (simp add: w3 open_last_def a0_def butlast_two)
  obtain thrown w4 where tb: "try_block variable env net (input w) w3 = (thrown, w4)"
    by (cases "try_block variable env net (input w) w3") auto
  have ex: "extends ?P w3 w4"
    using extends_try_block [OF P3, of variable env net "input w"] tb by simp
  define w5 where "w5 = (case thrown of None \<Rightarrow> w4 | Some msg \<Rightarrow> setMessages (catch_update msg) w4)"
  have ex5: "extends ?P w4 w5"
  proof (cases thrown)
    case None
    then show ?thesis using ex by (simp add: w5_def extends_refl extends_holds)
  next
    case (Some msg)
    then show ?thesis
      using ex by (simp add: w5_def extends_setMessages open_last_catch extends_holds)
  qed
  have "extends ?P w3 w5"
    using ex ex5 by (rule extends_trans)
  then obtain new where new: "trace w5 = trace w3 @ new" "list_all (stream_effect ?P) new"
    and rest: "?P (messages w5)" "input w5 = input w3" "isServerReady w5 = isServerReady w3"
    by (auto simp: extends_def)
  have final: "w' = setLoading False w5"
    using assms(1,2) tb
    by (simp add: w'_def submit_def Let_def u_def a0_def w5_def w3_def split: option.splits)
  show ?thesis
    using new rest by (intro exI [of _ new]) (simp add: final setLoading_def w3)
qed

lemma error_update_fresh:
  "(case lastMessage prev of None \<Rightarrow> True | Some lm \<Rightarrow> role lm \<noteq> Assistant) \<Longrightarrow>
   error_update acc err prev =
     prev @ [\<lparr>role = Assistant, content = ''Error: '' @ err, isError = Some True\<rparr>]"
  by (simp add: error_update_def split: option.splits)

lemma error_update_open:
  "role a = Assistant \<Longrightarrow>
   error_update acc e (ms @ [a]) =
     ms @ [a\<lparr>content := acc @ [CHR 0x0A, CHR 0x0A] @ ''Error: '' @ e, isError := Some True\<rparr>]"
  by (simp add: error_update_def lastMessage_def)

lemma poll_not_ready:
  "list_all (\<lambda>h. \<not> ready h) failed \<Longrightarrow>
   checkServerStatus env (failed @ hs) w =
     checkServerStatus env hs (w\<lparr>trace := trace w @ poll_events env (length failed)\<rparr>)"
proof (induction failed arbitrary: w)
  case Nil
  then show ?case by (simp add: poll_events_def)
next
  case (Cons h failed)
  then show ?case
    by (simp add: poll_events_def fetch_def setTimeout_def)
qed

lemma ready_stays_poll: "isServerReady w \<Longrightarrow> isServerReady (checkServerStatus env hs w)"
  by (induction hs arbitrary: w) (auto simp: fetch_def setTimeout_def setIsServerReady_def Let_def)

lemma ready_stays_submit: "isServerReady (submit variable env net w) = isServerReady w"
proof (cases "blank (input w) \<or> loading w")
  case True
  then show ?thesis by (simp add: submit_def)
next
  case False
  with submit_accepted [of w variable env net] show ?thesis by auto
qed

lemma decode_append:
  "decode d (xs @ ys) =
     (case decode d xs of (t1, d1) \<Rightarrow> case decode d1 ys of (t2, d2) \<Rightarrow> (t1 @ t2, d2))"
  by (induction xs arbitrary: d) (auto split: prod.splits)

lemma decoder_ok_new: "decoder_ok new_TextDecoder"
  by (simp add: decoder_ok_def new_TextDecoder_def)

lemma decoder_ok_byte: "decoder_ok d \<Longrightarrow> decoder_ok (snd (decode_byte d b))"
  by (auto simp: decoder_ok_def decode_byte_def decode_lead_def emit_def reset_def Let_def
      split: prod.splits)

lemma snd_decode_Cons: "snd (decode d (b # bs)) = snd (decode (snd (decode_byte d b)) bs)"
  by (simp split: prod.splits)

lemma decoder_ok_decode: "decoder_ok d \<Longrightarrow> decoder_ok (snd (decode d v))"
proof (induction v arbitrary: d)
  case Nil
  then show ?case by simp
next
  case (Cons b bs)
  from Cons.IH [OF decoder_ok_byte [OF Cons.prems, of b]]
  show ?case by (simp only: snd_decode_Cons)
qed

lemma decode_byte_LF:
  "decoder_ok d \<Longrightarrow> \<exists>t. fst (decode_byte d (CHR 0x0A)) = t @ [CHR 0x0A]"
  by (auto simp: decoder_ok_def decode_byte_def decode_lead_def emit_def byte_def
      replacement_def Let_def split: prod.splits)

lemma decode_aligned:
  assumes "v = [] \<or> last v = CHR 0x0A" and "decoder_ok d"
  shows "fst (decode d v) = [] \<or> last (fst (decode d v)) = CHR 0x0A"
proof (cases "v = []")
  case True
  then show ?thesis by simp
next
  case False
  with assms obtain u where v: "v = u @ [CHR 0x0A]"
    by (metis append_butlast_last_id)
  obtain t1 d1 where d1: "decode d u = (t1, d1)" by (cases "decode d u") auto
  have "decoder_ok d1"
    using decoder_ok_decode [OF assms(2), of u] d1 by simp
  then obtain t where t: "fst (decode_byte d1 (CHR 0x0A)) = t @ [CHR 0x0A]"
    using decode_byte_LF by blast
  obtain t2 d2 where d2: "decode_byte d1 (CHR 0x0A) = (t2, d2)"
    by (cases "decode_byte d1 (CHR 0x0A)") auto
  have "fst (decode d v) = t1 @ t @ [CHR 0x0A]"
    using t d2 by (simp add: v decode_append d1)
  then show ?thesis by simp
qed

lemma split_nl_nonempty [simp]: "split_nl s \<noteq> []"
  by (induction s) (auto split: list.splits)

lemma split_nl_append:
  "split_nl (a @ CHR 0x0A # b) = split_nl a @ split_nl b"
  by (induction a) (auto split: list.splits)

lemma lines_of_Nil [simp]: "lines_of [] = []"
  by (simp add: lines_of_def)

lemma lines_of_append:
  assumes "t = [] \<or> last t = CHR 0x0A"
  shows "lines_of (t @ s) = lines_of t @ lines_of s"
proof (cases "t = []")
  case True
  then show ?thesis by simp
next
  case False
  with assms obtain u where t: "t = u @ [CHR 0x0A]"
    by (metis append_butlast_last_id)
  have "split_nl (t @ s) = split_nl u @ split_nl s"
    using split_nl_append [of u s] by (simp add: t)
  moreover have "split_nl t = split_nl u @ [[]]"
    using split_nl_append [of u "[]"] by (simp add: t)
  ultimately show ?thesis by (simp add: lines_of_def)
qed

lemma consume_aligned:
  "\<forall>v\<in>set reads. v = [] \<or> last v = CHR 0x0A \<Longrightarrow> decoder_ok d \<Longrightarrow>
   consume d acc w (map Value reads) =
     (None, snd (snd (process_lines acc w (lines_of (fst (decode d (concat reads)))))))"
proof (induction reads arbitrary: d acc w)
  case Nil
  then show ?case by simp
next
  case (Cons v vs)
  obtain t1 d1 where d1: "decode d v = (t1, d1)" by (cases "decode d v") auto
  obtain t2 d2 where d2: "decode d1 (concat vs) = (t2, d2)"
    by (cases "decode d1 (concat vs)") auto
  have al: "t1 = [] \<or> last t1 = CHR 0x0A"
    using decode_aligned [of v d] Cons.prems d1 by simp
  have ok1: "decoder_ok d1"
    using decoder_ok_decode [OF Cons.prems(2), of v] d1 by simp
  have whole: "lines_of (fst (decode d (v @ concat vs))) = lines_of t1 @ lines_of t2"
    by (simp add: decode_append d1 d2 lines_of_append [OF al])
  obtain f a x where pl: "process_lines acc w (lines_of t1) = (f, a, x)"
    by (cases "process_lines acc w (lines_of t1)") auto
  show ?case
  proof (cases f)
    case Break
    then show ?thesis by (simp add: whole process_lines_append d1 pl)
  next
    case Next
    have "consume d1 a x (map Value vs) =
        (None, snd (snd (process_lines a x (lines_of (fst (decode d1 (concat vs)))))))"
      by (rule Cons.IH) (use Cons.prems ok1 in simp_all)
    then show ?thesis by (simp add: whole process_lines_append d1 d2 pl Next)
  qed
qed

lemma chunk_update_open:
  "role a = Assistant \<Longrightarrow> chunk_update acc (ms @ [a]) = ms @ [a\<lparr>content := acc\<rparr>]"
  by (simp add: chunk_update_def lastMessage_def)

lemma process_lines_chunks:
  "list_all (\<lambda>l. \<not> error_line l) ls \<Longrightarrow> messages w = ms @ [a] \<Longrightarrow> role a = Assistant \<Longrightarrow>
   content a = acc \<Longrightarrow>
   \<exists>w'. process_lines acc w ls = (Next, acc @ concat (chunk_texts ls), w') \<and>
        messages w' = ms @ [a\<lparr>content := acc @ concat (chunk_texts ls)\<rparr>]"
proof (induction ls arbitrary: acc w a)
  case Nil
  then show ?case by (simp add: chunk_texts_def)
next
  case (Cons l ls)
  show ?case
  proof (cases "line_event l")
    case None
    then have pl: "process_line acc w l = (Next, acc, w)" by (simp add: process_line_event)
    from Cons.IH [of w a acc] Cons.prems None pl show ?thesis
      by (simp add: chunk_texts_def)
  next
    case (Some ev)
    show ?thesis
    proof (cases ev)
      case (Chunk c)
      let ?w = "setMessages (chunk_update (acc @ c)) w"
      let ?a = "a\<lparr>content := acc @ c\<rparr>"
      have pl: "process_line acc w l = (Next, acc @ c, ?w)"
        using Some Chunk by (simp add: process_line_event)
      have m: "messages ?w = ms @ [?a]"
        using Cons.prems by (simp add: setMessages_def chunk_update_open Let_def)
      from Cons.IH [of ?w ?a "acc @ c"] Cons.prems m
      obtain w' where "process_lines (acc @ c) ?w ls =
            (Next, (acc @ c) @ concat (chunk_texts ls), w')"
        "messages w' = ms @ [?a\<lparr>content := (acc @ c) @ concat (chunk_texts ls)\<rparr>]"
        by auto
      then show ?thesis
        using Some Chunk pl by (simp add: chunk_texts_def)
    next
      case (Error e)
      with Some Cons.prems show ?thesis by (simp add: error_line_def)
    next
      case Unrecognized
      with Some have pl: "process_line acc w l = (Next, acc, w)"
        by (simp add: process_line_event)
      from Cons.IH [of w a acc] Cons.prems Some Unrecognized pl show ?thesis
        by (simp add: chunk_texts_def)
    qed
  qed
qed

section \<open>Properties\<close>

text \<open>
  C1, as the code has it. The loop splits every read into lines on its own and keeps no
  partial line for the next read. So the content of the open assistant message is the
  concatenation of the chunk contents \<open>c1 ... cn\<close> in stream order for every way of
  splitting the bytes in which each read ends at the end of a line (it is empty or ends
  with a line feed): then the result depends on the concatenated bytes only. Here the
  request succeeded, no read fails and no line is an error event.
\<close>

theorem chunks_concatenated:
  assumes "\<not> blank (input w)" "\<not> loading w" "ok status"
    and "\<forall>v\<in>set reads. v = [] \<or> last v = CHR 0x0A"
    and "list_all (\<lambda>l. \<not> error_line l) (lines_of (fst (decode new_TextDecoder (concat reads))))"
  shows "messages (submit variable env
            (Fetched (Response status statusText (Some (map Value reads)))) w) =
         messages w @
           [\<lparr>role = User, content = input w, isError = None\<rparr>,
            \<lparr>role = Assistant,
             content = concat (chunk_texts
               (lines_of (fst (decode new_TextDecoder (concat reads))))),
             isError = None\<rparr>]"
proof -
  let ?u = "\<lparr>role = User, content = input w, isError = None\<rparr>"
  let ?a = "\<lparr>role = Assistant, content = [], isError = None\<rparr>"
  let ?ls = "lines_of (fst (decode new_TextDecoder (concat reads)))"
  define w3 where "w3 = fetch ''POST'' (template (env variable) @ ''/ask'')
                 (Some (JObject [(''question'', JString (input w))]))
      (setMessages (\<lambda>prevMessages. prevMessages @ [?a])
              (setMessages (\<lambda>prevMessages. prevMessages @ [?u])
                (setLoading True (setInput [] w))))"
  have m3: "messages w3 = (messages w @ [?u]) @ [?a]"
    by (simp add: w3_def world_ops Let_def)
  from process_lines_chunks [OF assms(5) m3, of "[]"]
  obtain w' where pl: "process_lines [] w3 ?ls = (Next, concat (chunk_texts ?ls), w')"
    and m': "messages w' = (messages w @ [?u]) @ [?a\<lparr>content := concat (chunk_texts ?ls)\<rparr>]"
    by auto
  have "consume new_TextDecoder [] w3 (map Value reads) = (None, w')"
    by (simp add: consume_aligned [OF assms(4) decoder_ok_new] pl)
  then have "submit variable env
            (Fetched (Response status statusText (Some (map Value reads)))) w = setLoading False w'"
    using assms(1,2,3) by (simp add: submit_def Let_def w3_def)
  then show ?thesis by (simp add: setLoading_def m')
qed

theorem chunks_concatenated_witness:
  "messages (submit ''NEXT_PUBLIC_API_URL'' readme_env
      (Fetched (Response 200 ''OK'' (Some (map Value two_reads)))) idle) =
   [\<lparr>role = User, content = ''X'', isError = None\<rparr>,
    \<lparr>role = Assistant, content = ''A Certificate of Occupancy is...'', isError = None\<rparr>] \<and>
   messages (submit ''NEXT_PUBLIC_API_URL'' readme_env
      (Fetched (Response 200 ''OK'' (Some (map Value one_read)))) idle) =
   [\<lparr>role = User, content = ''X'', isError = None\<rparr>,
    \<lparr>role = Assistant, content = ''A Certificate of Occupancy is...'', isError = None\<rparr>]"
proof -
  have h1: "\<not> blank (input idle)" by (simp add: idle_def ascii_space_def)
  have h2: "\<not> loading idle" by (simp add: idle_def)
  have h3: "ok 200" by (simp add: ok_def)
  have h4: "\<forall>v\<in>set two_reads. v = [] \<or> last v = CHR 0x0A" by (simp add: two_reads_def)
  have h5: "list_all (\<lambda>l. \<not> error_line l)
      (lines_of (fst (decode new_TextDecoder (concat two_reads))))"
    by code_simp
  have ev: "concat (chunk_texts (lines_of (fst (decode new_TextDecoder (concat two_reads))))) =
      ''A Certificate of Occupancy is...''"
    by code_simp
  have k4: "\<forall>v\<in>set one_read. v = [] \<or> last v = CHR 0x0A" by (simp add: one_read_def)
  have same: "concat one_read = concat two_reads" by (simp add: one_read_def two_reads_def)
  note two = chunks_concatenated [OF h1 h2 h3 h4 h5, where variable = "''NEXT_PUBLIC_API_URL''"
      and env = readme_env and statusText = "''OK''"]
  note one = chunks_concatenated [OF h1 h2 h3 k4 h5 [folded same],
      where variable = "''NEXT_PUBLIC_API_URL''" and env = readme_env and statusText = "''OK''"]
  show ?thesis
    using two one unfolding same ev by (simp add: idle_def)
qed

text \<open>
  C1 as stated fails when a read ends inside a protocol line: of the line
  \<^verbatim>\<open>data: {"type":"chunk","content":"ab"}\<close> delivered in two reads, the first piece does
  not parse and the second lacks the prefix, so the content stays empty; the same bytes
  in one read give \<open>ab\<close>.
\<close>

theorem split_line_drops_chunk:
  \<open>content (last (messages (handleSubmit readme_env
      (Fetched (Response 200 ''OK''
         (Some [Value ''data: {"type":"chu'', Value (''nk","content":"ab"}'' @ [CHR 0x0A])])))
      idle))) = [] \<and>
   content (last (messages (handleSubmit readme_env
      (Fetched (Response 200 ''OK''
         (Some [Value (''data: {"type":"chunk","content":"ab"}'' @ [CHR 0x0A])])))
      idle))) = ''ab''\<close>
  by code_simp

text \<open>
  C2, as the code has it. Let a line that arrives whole in one read carry a well-formed
  error event with text \<open>X\<close>, reached after the lines \<open>before\<close> of its read with
  accumulator \<open>acc1\<close>, while the log ends with an assistant message \<open>a\<close>. Processing the line sets the content of \<open>a\<close> to \<open>acc1\<close>, a blank line,
  \<open>Error: \<close> and \<open>X\<close>, sets its error flag, cancels the reader and leaves the loop
  over the lines; the lines after it in the read and all later reads change nothing:
  the consumption ends in that same state whatever follows.
\<close>

theorem error_event_stops_stream:
  assumes "line_event line = Some (Error X)"
    and "process_lines acc w before = (Next, acc1, w1)"
    and "messages w1 = ms @ [a]" and "role a = Assistant"
  shows "let flagged = ms @ [a\<lparr>content := acc1 @ [CHR 0x0A, CHR 0x0A] @ ''Error: '' @ X,
                               isError := Some True\<rparr>];
             W = w1\<lparr>messages := flagged,
                     trace := trace w1 @ [EvSetMessages flagged, EvCancel]\<rparr>
         in process_line acc1 w1 line = (Break, acc1, W) \<and>
            process_lines acc w (before @ line # later) = (Break, acc1, W) \<and>
            (lines_of (fst (decode d v)) = before @ line # later \<longrightarrow>
             consume d acc w (Value v # reader) = (None, W))"
proof -
  define flagged where "flagged = ms @ [a\<lparr>content := acc1 @ [CHR 0x0A, CHR 0x0A] @ ''Error: '' @ X,
                               isError := Some True\<rparr>]"
  define W where "W = w1\<lparr>messages := flagged,
                     trace := trace w1 @ [EvSetMessages flagged, EvCancel]\<rparr>"
  have one: "process_line acc1 w1 line = (Break, acc1, W)"
    using assms(1,3,4)
    by (simp add: process_line_event error_update_open setMessages_def reader_cancel_def
        Let_def W_def flagged_def)
  have two: "process_lines acc w (before @ line # later) = (Break, acc1, W)"
    by (simp add: process_lines_append assms(2) one)
  have three: "consume d acc w (Value v # reader) = (None, W)"
    if "lines_of (fst (decode d v)) = before @ line # later"
    using that two by (cases "decode d v") simp
  show ?thesis
    unfolding Let_def flagged_def [symmetric] W_def [symmetric]
    using one two three by blast
qed

theorem error_event_stops_stream_witness:
  "consume new_TextDecoder ''Partial answer'' streaming
     [Value (error_c @ [CHR 0x0A] @ chunk_b @ [CHR 0x0A]), Value (chunk_b @ [CHR 0x0A])] =
   (None,
    streaming\<lparr>messages :=
        [\<lparr>role = User, content = ''X'', isError = None\<rparr>,
         \<lparr>role = Assistant,
          content = ''Partial answer'' @ [CHR 0x0A, CHR 0x0A] @ ''Error: rate limited'',
          isError = Some True\<rparr>],
      trace :=
        [EvSetMessages
           [\<lparr>role = User, content = ''X'', isError = None\<rparr>,
            \<lparr>role = Assistant,
             content = ''Partial answer'' @ [CHR 0x0A, CHR 0x0A] @ ''Error: rate limited'',
             isError = Some True\<rparr>],
         EvCancel]\<rparr>)"
proof -
  have h1: "line_event error_c = Some (Error ''rate limited'')" by code_simp
  have h2: "process_lines ''Partial answer'' streaming [] = (Next, ''Partial answer'', streaming)"
    by simp
  have h3: "messages streaming = [\<lparr>role = User, content = ''X'', isError = None\<rparr>] @
      [\<lparr>role = Assistant, content = ''Partial answer'', isError = None\<rparr>]"
    by (simp add: streaming_def)
  have h4: "role \<lparr>role = Assistant, content = ''Partial answer'', isError = None\<rparr> = Assistant"
    by simp
  have h5: "lines_of (fst (decode new_TextDecoder (error_c @ [CHR 0x0A] @ chunk_b @ [CHR 0x0A]))) =
      [] @ error_c # [chunk_b]"
    by code_simp
  show ?thesis
    using error_event_stops_stream [OF h1 h2 h3 h4, of "[chunk_b]" new_TextDecoder
        "error_c @ [CHR 0x0A] @ chunk_b @ [CHR 0x0A]" "[Value (chunk_b @ [CHR 0x0A])]"] h5
    by (simp add: Let_def streaming_def)
qed

text \<open>
  C2 as stated fails when a read ends inside the line of the error event. The stream
  below carries a chunk, an error event and a chunk; the error line comes in two pieces,
  of which the first does not parse and the second lacks the prefix. So nothing is
  flagged, the reader is not cancelled, and the chunk after the event is applied.
\<close>

theorem cut_error_line_dropped:
  "lines_of (fst (decode new_TextDecoder (concat cut_error_bytes))) = [chunk_a, error_c, chunk_b] \<and>
   line_event error_c = Some (Error ''rate limited'') \<and>
   messages (handleSubmit readme_env
      (Fetched (Response 200 ''OK'' (Some (map Value cut_error_bytes)))) idle) =
     [\<lparr>role = User, content = ''X'', isError = None\<rparr>,
      \<lparr>role = Assistant, content = ''A Certificate of Occupancy is...'', isError = None\<rparr>] \<and>
   EvCancel \<notin> set (trace (handleSubmit readme_env
      (Fetched (Response 200 ''OK'' (Some (map Value cut_error_bytes)))) idle))"
  by code_simp

text \<open>
  C3, as the code has it. A call that passes the guard (the input is not blank and no
  submission is in flight) sets the busy flag to true once and resets it to false once,
  as its last state update, and the flag is false when it returns: whether the request
  or a read throws, the stream ends or an error event cancels it. A call that the guard
  rejects calls no setter and leaves the flag as it was.
\<close>

theorem busy_reset_once:
  "(\<not> blank (input w) \<and> \<not> loading w \<longrightarrow>
      loading (submit variable env net w) = False \<and>
      loading_updates (new_events w (submit variable env net w)) = [True, False] \<and>
      last (trace (submit variable env net w)) = EvSetLoading False) \<and>
   (blank (input w) \<or> loading w \<longrightarrow>
      loading (submit variable env net w) = loading w \<and>
      loading_updates (new_events w (submit variable env net w)) = [])"
proof (intro conjI impI)
  assume "blank (input w) \<or> loading w"
  then have "submit variable env net w = w" by (simp add: submit_def)
  then show "loading (submit variable env net w) = loading w"
    and "loading_updates (new_events w (submit variable env net w)) = []"
    by (simp_all add: new_events_def)
next
  assume a: "\<not> blank (input w) \<and> \<not> loading w"
  from a submit_accepted [of w variable env net]
  obtain new where
    tr: "trace (submit variable env net w) =
           trace w @ [EvSetInput [], EvSetLoading True,
             EvSetMessages (messages w @ [\<lparr>role = User, content = input w, isError = None\<rparr>]),
             EvSetMessages (messages w @ [\<lparr>role = User, content = input w, isError = None\<rparr>,
               \<lparr>role = Assistant, content = [], isError = None\<rparr>])] @ new @ [EvSetLoading False]"
    and new: "list_all (stream_effect
       (open_last (messages w @ [\<lparr>role = User, content = input w, isError = None\<rparr>]))) new"
    and l: "loading (submit variable env net w) = False"
    by auto
  show "loading (submit variable env net w) = False" by (rule l)
  show "loading_updates (new_events w (submit variable env net w)) = [True, False]"
    by (simp add: new_events_def tr stream_effect_loading [OF new])
  show "last (trace (submit variable env net w)) = EvSetLoading False"
    by (simp add: tr)
qed

theorem busy_reset_once_witness:
  "loading (submit ''NEXT_PUBLIC_API_URL'' readme_env (FetchThrows ''Failed to fetch'') idle) = False \<and>
   loading_updates (new_events idle
     (submit ''NEXT_PUBLIC_API_URL'' readme_env (FetchThrows ''Failed to fetch'') idle)) =
     [True, False] \<and>
   last (trace (submit ''NEXT_PUBLIC_API_URL'' readme_env (FetchThrows ''Failed to fetch'') idle)) =
     EvSetLoading False \<and>
   loading_updates (new_events streaming
     (submit ''NEXT_PUBLIC_API_URL'' readme_env (FetchThrows ''Failed to fetch'') streaming)) = []"
  using busy_reset_once [of idle "''NEXT_PUBLIC_API_URL''" readme_env "FetchThrows ''Failed to fetch''"]
    busy_reset_once [of streaming "''NEXT_PUBLIC_API_URL''" readme_env
      "FetchThrows ''Failed to fetch''"]
  by (simp add: idle_def streaming_def ascii_space_def)

text \<open>
  C3 as stated fails for a call that is rejected because a submission is in flight: the
  guard returns at once, and the busy flag is still true when the call returns.
\<close>

theorem rejected_while_busy_stays_busy:
  "loading (handleSubmit readme_env (FetchThrows ''Failed to fetch'') streaming) \<noteq> False"
  by (simp add: handleSubmit_def submit_def streaming_def)

text \<open>
  C4 on the code. With the environment of the README, which sets
  \<^verbatim>\<open>NEXT_PUBLIC_BACKEND_URL\<close> only, the poller asks the configured backend for its health,
  while \<^verbatim>\<open>handleSubmit\<close> reads \<^verbatim>\<open>NEXT_PUBLIC_API_URL\<close>, finds it undefined and posts the
  question to another address.
\<close>

theorem ask_and_health_urls_differ:
  "fetch_urls (trace (checkServerStatus readme_env [] idle)) =
     [''http://localhost:8000/health''] \<and>
   fetch_urls (trace (handleSubmit readme_env (FetchThrows ''Failed to fetch'') idle)) =
     [''undefined/ask'']"
  by code_simp

text \<open>
  C5. In a call that passes the guard the first update of the log appends the user
  message \<open>u\<close>; every later update, and the log when the call returns, is the old log,
  then \<open>u\<close>, then one assistant message: the second update appends the open message and
  all the others rewrite that last element only. A rejected call does not update the log.
\<close>

theorem open_message_is_last:
  "(\<not> blank (input w) \<and> \<not> loading w \<longrightarrow>
      message_logs (new_events w (submit variable env net w)) \<noteq> [] \<and>
      hd (message_logs (new_events w (submit variable env net w))) =
        messages w @ [\<lparr>role = User, content = input w, isError = None\<rparr>] \<and>
      list_all (open_last (messages w @ [\<lparr>role = User, content = input w, isError = None\<rparr>]))
        (tl (message_logs (new_events w (submit variable env net w)))) \<and>
      open_last (messages w @ [\<lparr>role = User, content = input w, isError = None\<rparr>])
        (messages (submit variable env net w))) \<and>
   (blank (input w) \<or> loading w \<longrightarrow>
      message_logs (new_events w (submit variable env net w)) = [] \<and>
      messages (submit variable env net w) = messages w)"
proof (intro conjI impI)
  assume "blank (input w) \<or> loading w"
  then have "submit variable env net w = w" by (simp add: submit_def)
  then show "message_logs (new_events w (submit variable env net w)) = []"
    and "messages (submit variable env net w) = messages w"
    by (simp_all add: new_events_def)
next
  let ?u = "\<lparr>role = User, content = input w, isError = None\<rparr>"
  assume "\<not> blank (input w) \<and> \<not> loading w"
  with submit_accepted [of w variable env net]
  obtain new where
    tr: "trace (submit variable env net w) =
           trace w @ [EvSetInput [], EvSetLoading True,
             EvSetMessages (messages w @ [?u]),
             EvSetMessages (messages w @ [?u,
               \<lparr>role = Assistant, content = [], isError = None\<rparr>])] @ new @ [EvSetLoading False]"
    and new: "list_all (stream_effect (open_last (messages w @ [?u]))) new"
    and l: "open_last (messages w @ [?u]) (messages (submit variable env net w))"
    by auto
  have logs: "message_logs (new_events w (submit variable env net w)) =
      (messages w @ [?u]) # (messages w @ [?u, \<lparr>role = Assistant, content = [], isError = None\<rparr>])
        # message_logs new"
    by (simp add: new_events_def tr)
  show "message_logs (new_events w (submit variable env net w)) \<noteq> []"
    by (simp add: logs)
  show "hd (message_logs (new_events w (submit variable env net w))) = messages w @ [?u]"
    by (simp add: logs)
  show "list_all (open_last (messages w @ [?u]))
        (tl (message_logs (new_events w (submit variable env net w))))"
    using stream_effect_logs [OF new] by (simp add: logs open_last_def butlast_two)
  show "open_last (messages w @ [?u]) (messages (submit variable env net w))"
    by (rule l)
qed

theorem open_message_is_last_witness:
  "message_logs (new_events idle (submit ''NEXT_PUBLIC_API_URL'' readme_env
      (Fetched (Response 200 ''OK'' (Some [Value (chunk_a @ [CHR 0x0A] @ error_c @ [CHR 0x0A])])))
      idle)) =
     [[\<lparr>role = User, content = ''X'', isError = None\<rparr>],
      [\<lparr>role = User, content = ''X'', isError = None\<rparr>,
       \<lparr>role = Assistant, content = [], isError = None\<rparr>],
      [\<lparr>role = User, content = ''X'', isError = None\<rparr>,
       \<lparr>role = Assistant, content = ''A Certificate '', isError = None\<rparr>],
      [\<lparr>role = User, content = ''X'', isError = None\<rparr>,
       \<lparr>role = Assistant,
        content = ''A Certificate '' @ [CHR 0x0A, CHR 0x0A] @ ''Error: rate limited'',
        isError = Some True\<rparr>]] \<and>
   list_all (open_last [\<lparr>role = User, content = ''X'', isError = None\<rparr>])
     (tl (message_logs (new_events idle (submit ''NEXT_PUBLIC_API_URL'' readme_env
        (Fetched (Response 200 ''OK''
           (Some [Value (chunk_a @ [CHR 0x0A] @ error_c @ [CHR 0x0A])])))
        idle))))"
proof -
  have "message_logs (new_events idle (submit ''NEXT_PUBLIC_API_URL'' readme_env
      (Fetched (Response 200 ''OK'' (Some [Value (chunk_a @ [CHR 0x0A] @ error_c @ [CHR 0x0A])])))
      idle)) =
     [[\<lparr>role = User, content = ''X'', isError = None\<rparr>],
      [\<lparr>role = User, content = ''X'', isError = None\<rparr>,
       \<lparr>role = Assistant, content = [], isError = None\<rparr>],
      [\<lparr>role = User, content = ''X'', isError = None\<rparr>,
       \<lparr>role = Assistant, content = ''A Certificate '', isError = None\<rparr>],
      [\<lparr>role = User, content = ''X'', isError = None\<rparr>,
       \<lparr>role = Assistant,
        content = ''A Certificate '' @ [CHR 0x0A, CHR 0x0A] @ ''Error: rate limited'',
        isError = Some True\<rparr>]]"
    by code_simp
  moreover have "list_all (open_last (messages idle @
        [\<lparr>role = User, content = input idle, isError = None\<rparr>]))
     (tl (message_logs (new_events idle (submit ''NEXT_PUBLIC_API_URL'' readme_env
        (Fetched (Response 200 ''OK''
           (Some [Value (chunk_a @ [CHR 0x0A] @ error_c @ [CHR 0x0A])])))
        idle))))"
    using open_message_is_last [of idle "''NEXT_PUBLIC_API_URL''" readme_env
        "Fetched (Response 200 ''OK''
           (Some [Value (chunk_a @ [CHR 0x0A] @ error_c @ [CHR 0x0A])]))"]
    by (simp add: idle_def ascii_space_def)
  moreover have "messages idle @ [\<lparr>role = User, content = input idle, isError = None\<rparr>] =
      [\<lparr>role = User, content = ''X'', isError = None\<rparr>]"
    by (simp add: idle_def)
  ultimately show ?thesis by simp
qed





text \<open>
  C8. When the input is blank (empty or white space only) or a submission is in flight,
  \<^verbatim>\<open>handleSubmit\<close> returns the state it was given: log, input, busy flag and trace are
  unchanged, so no setter was called and no request was sent.
\<close>

theorem rejected_submit_no_change:
  "blank (input w) \<or> loading w \<Longrightarrow>
   submit variable env net w = w \<and> new_events w (submit variable env net w) = []"
  by (simp add: submit_def new_events_def)

theorem rejected_submit_no_change_witness:
  "blank (input (idle\<lparr>input := ''  ''\<rparr>)) \<and>
   submit ''NEXT_PUBLIC_API_URL'' readme_env (FetchThrows ''Failed to fetch'')
     (idle\<lparr>input := ''  ''\<rparr>) = idle\<lparr>input := ''  ''\<rparr> \<and>
   loading streaming \<and>
   submit ''NEXT_PUBLIC_API_URL'' readme_env (FetchThrows ''Failed to fetch'') streaming =
     streaming \<and>
   new_events streaming
     (submit ''NEXT_PUBLIC_API_URL'' readme_env (FetchThrows ''Failed to fetch'') streaming) = []"
proof -
  have h1: "blank (input (idle\<lparr>input := ''  ''\<rparr>))" by (simp add: ascii_space_def)
  have h2: "loading streaming" by (simp add: streaming_def)
  note a = rejected_submit_no_change [OF disjI1 [OF h1], where variable = "''NEXT_PUBLIC_API_URL''"
      and env = readme_env and net = "FetchThrows ''Failed to fetch''"]
  note b = rejected_submit_no_change [OF disjI2 [OF h2], where variable = "''NEXT_PUBLIC_API_URL''"
      and env = readme_env and net = "FetchThrows ''Failed to fetch''"]
  from a b h1 h2 show ?thesis by blast
qed

text \<open>
  C9. A poll finds the backend ready exactly when the request succeeds with a body whose
  \<open>status\<close> is \<open>ready\<close>. After polls that did not, whatever their failure, the poller
  has set a timer of 2000 milliseconds after each and sent the next request, and the
  readiness flag is as it was. At the first poll that finds the backend ready it sets
  the flag to true and stops: no timer, no further request. A flag that is true stays
  true under the poller and under \<^verbatim>\<open>handleSubmit\<close>; nothing sets it to false.
\<close>

theorem poller_until_ready:
  assumes "list_all (\<lambda>h. \<not> ready h) failed"
  shows "ready h =
           (case h of
              HealthResponse status (Some data) \<Rightarrow>
                ok status \<and> property data ''status'' = Some (JString ''ready'')
            | _ \<Rightarrow> False) \<and>
         checkServerStatus env failed w =
           w\<lparr>trace := trace w @ poll_events env (length failed) @
              [EvFetch ''GET'' (template (env ''NEXT_PUBLIC_BACKEND_URL'') @ ''/health'') None]\<rparr> \<and>
         (ready h \<longrightarrow>
          checkServerStatus env (failed @ h # later) w =
            w\<lparr>isServerReady := True,
              trace := trace w @ poll_events env (length failed) @
                [EvFetch ''GET'' (template (env ''NEXT_PUBLIC_BACKEND_URL'') @ ''/health'') None,
                 EvSetIsServerReady True]\<rparr>) \<and>
         (isServerReady w \<longrightarrow>
          isServerReady (checkServerStatus env hs w) \<and>
          isServerReady (submit variable env net w))"
proof (intro conjI impI)
  show "ready h =
           (case h of
              HealthResponse status (Some data) \<Rightarrow>
                ok status \<and> property data ''status'' = Some (JString ''ready'')
            | _ \<Rightarrow> False)"
    by (cases h rule: ready.cases) auto
next
  show "checkServerStatus env failed w =
           w\<lparr>trace := trace w @ poll_events env (length failed) @
              [EvFetch ''GET'' (template (env ''NEXT_PUBLIC_BACKEND_URL'') @ ''/health'') None]\<rparr>"
    using poll_not_ready [OF assms, of env "[]" w] by (simp add: fetch_def)
next
  assume "ready h"
  then show "checkServerStatus env (failed @ h # later) w =
            w\<lparr>isServerReady := True,
              trace := trace w @ poll_events env (length failed) @
                [EvFetch ''GET'' (template (env ''NEXT_PUBLIC_BACKEND_URL'') @ ''/health'') None,
                 EvSetIsServerReady True]\<rparr>"
    using poll_not_ready [OF assms, of env "h # later" w]
    by (simp add: fetch_def setIsServerReady_def)
next
  assume "isServerReady w"
  then show "isServerReady (checkServerStatus env hs w)" by (rule ready_stays_poll)
next
  assume "isServerReady w"
  then show "isServerReady (submit variable env net w)" by (simp add: ready_stays_submit)
qed

theorem poller_until_ready_witness:
  "checkServerStatus readme_env
     ([HealthThrows, HealthResponse 503 None,
       HealthResponse 200 (Some (JObject [(''status'', JString ''loading'')]))] @
      HealthResponse 200 (Some (JObject [(''status'', JString ''ready'')])) # [HealthThrows])
     (idle\<lparr>isServerReady := False\<rparr>) =
   idle\<lparr>isServerReady := True,
     trace :=
       [EvFetch ''GET'' ''http://localhost:8000/health'' None, EvSetTimeout 2000,
        EvFetch ''GET'' ''http://localhost:8000/health'' None, EvSetTimeout 2000,
        EvFetch ''GET'' ''http://localhost:8000/health'' None, EvSetTimeout 2000,
        EvFetch ''GET'' ''http://localhost:8000/health'' None, EvSetIsServerReady True]\<rparr>"
proof -
  have h: "list_all (\<lambda>h. \<not> ready h)
      [HealthThrows, HealthResponse 503 None,
       HealthResponse 200 (Some (JObject [(''status'', JString ''loading'')]))]"
    by (simp add: ok_def)
  have r: "ready (HealthResponse 200 (Some (JObject [(''status'', JString ''ready'')])))"
    by (simp add: ok_def)
  have u: "template (readme_env ''NEXT_PUBLIC_BACKEND_URL'') = ''http://localhost:8000''"
    by (simp add: template_def readme_env_def)
  note run = poller_until_ready [OF h,
      where h = "HealthResponse 200 (Some (JObject [(''status'', JString ''ready'')]))"
        and env = readme_env and w = "idle\<lparr>isServerReady := False\<rparr>"
        and later = "[HealthThrows]",
      THEN conjunct2, THEN conjunct2, THEN conjunct1, THEN mp, OF r]
  show ?thesis
    unfolding run by (simp add: u poll_events_def idle_def)
qed

text \<open>
  C10. When a line that carries a well-formed error event with text \<open>X\<close> is processed
  while the last element of the log is not an assistant message (the log is empty or ends
  with a user message), the log gets one new assistant message at its end, whose content
  is exactly \<open>Error: \<close> followed by \<open>X\<close>, without the accumulated content and without the
  blank-line separator, flagged as an error; the reader is cancelled, the later lines of
  the read are left alone, and the consumption ends with that log.
\<close>

theorem error_event_without_open_message:
  assumes "line_event line = Some (Error X)"
    and "case lastMessage (messages w) of None \<Rightarrow> True | Some lm \<Rightarrow> role lm \<noteq> Assistant"
  shows "process_line acc w line =
           (Break, acc,
            w\<lparr>messages := messages w @
                  [\<lparr>role = Assistant, content = ''Error: '' @ X, isError = Some True\<rparr>],
              trace := trace w @
                  [EvSetMessages (messages w @
                     [\<lparr>role = Assistant, content = ''Error: '' @ X, isError = Some True\<rparr>]),
                   EvCancel]\<rparr>) \<and>
         process_lines acc w (line # later) = process_line acc w line \<and>
         (lines_of (fst (decode d v)) = line # later \<longrightarrow>
          messages (snd (consume d acc w (Value v # reader))) =
            messages w @ [\<lparr>role = Assistant, content = ''Error: '' @ X, isError = Some True\<rparr>])"
proof -
  let ?fresh = "\<lparr>role = Assistant, content = ''Error: '' @ X, isError = Some True\<rparr>"
  let ?W = "w\<lparr>messages := messages w @ [?fresh],
              trace := trace w @ [EvSetMessages (messages w @ [?fresh]), EvCancel]\<rparr>"
  have one: "process_line acc w line = (Break, acc, ?W)"
    using assms(1) error_update_fresh [OF assms(2), of acc X]
    by (simp add: process_line_event setMessages_def reader_cancel_def Let_def)
  have two: "process_lines acc w (line # later) = process_line acc w line"
    by (simp add: one)
  have three: "messages (snd (consume d acc w (Value v # reader))) = messages w @ [?fresh]"
    if "lines_of (fst (decode d v)) = line # later"
    using that one by (cases "decode d v") simp
  show ?thesis using one two three by blast
qed

theorem error_event_without_open_message_witness:
  "line_event error_c = Some (Error ''rate limited'') \<and>
   lastMessage (messages asked) = Some \<lparr>role = User, content = ''X'', isError = None\<rparr> \<and>
   process_line ''Partial answer'' asked error_c =
     (Break, ''Partial answer'',
      asked\<lparr>messages :=
          [\<lparr>role = User, content = ''X'', isError = None\<rparr>,
           \<lparr>role = Assistant, content = ''Error: rate limited'', isError = Some True\<rparr>],
        trace :=
          [EvSetMessages
             [\<lparr>role = User, content = ''X'', isError = None\<rparr>,
              \<lparr>role = Assistant, content = ''Error: rate limited'', isError = Some True\<rparr>],
           EvCancel]\<rparr>)"
proof -
  have h1: "line_event error_c = Some (Error ''rate limited'')" by code_simp
  have l: "lastMessage (messages asked) = Some \<lparr>role = User, content = ''X'', isError = None\<rparr>"
    by (simp add: asked_def lastMessage_def)
  have h2: "case lastMessage (messages asked) of None \<Rightarrow> True | Some lm \<Rightarrow> role lm \<noteq> Assistant"
    by (simp add: l)
  note run = error_event_without_open_message [OF h1 h2, where acc = "''Partial answer''",
      THEN conjunct1]
  show ?thesis
    using h1 l unfolding run by (simp add: asked_def)
qed

end
